theory Spec2Isabelle
  imports Main
begin

section \<open>JavaScript strings and the values the comparator handles\<close>

text \<open>
  The module \<^verbatim>\<open>apimap.js\<close> works on JavaScript strings, which are sequences of code
  units. A string is modelled as a list of characters, and a character stands for the
  code unit of the same number, from 0 to 255 (the Latin-1 range; a string with a code
  unit above 255 has no counterpart in the model). Every character class the source
  uses (\<^verbatim>\<open>[a-z]\<close>, \<^verbatim>\<open>[0-9]\<close>, \<^verbatim>\<open>/\<close>, \<^verbatim>\<open>v\<close>, \<^verbatim>\<open>.\<close>) is ASCII, and characters are
  compared by their code, as the relational operators of JavaScript do on strings.
\<close>

datatype error = TypeError

definition isLower :: "char \<Rightarrow> bool" where
  "isLower c \<longleftrightarrow> 97 \<le> (of_char c :: nat) \<and> (of_char c :: nat) \<le> 122"

definition isDigit :: "char \<Rightarrow> bool" where
  "isDigit c \<longleftrightarrow> 48 \<le> (of_char c :: nat) \<and> (of_char c :: nat) \<le> 57"

text \<open>
  \<^verbatim>\<open>a < b\<close> on two strings: the first differing code unit decides, and a proper prefix
  is the smaller string. \<^verbatim>\<open>a > b\<close> is \<open>strLess b a\<close>.
\<close>

fun strLess :: "string \<Rightarrow> string \<Rightarrow> bool" where
  "strLess [] [] = False"
| "strLess [] (y # ys) = True"
| "strLess (x # xs) [] = False"
| "strLess (x # xs) (y # ys) =
     (if (of_char x :: nat) < of_char y then True
      else if (of_char y :: nat) < of_char x then False
      else strLess xs ys)"

text \<open>
  A capture group that did not take part in the match is \<^verbatim>\<open>undefined\<close>, modelled as
  \<open>None\<close>. A relational operator with an \<^verbatim>\<open>undefined\<close> operand converts it to NaN and
  answers false, whatever the other operand is.
\<close>

fun jsLess :: "string option \<Rightarrow> string option \<Rightarrow> bool" where
  "jsLess (Some a) (Some b) = strLess a b"
| "jsLess _ _ = False"

section \<open>The version comparator\<close>

text \<open>
  \<^verbatim>\<open>verRegex = /([a-z]+)([0-9]+)([a-z]+)?([0-9]+)?/\<close>. The four capture groups of a
  successful match:
\<close>

record verExtraction =
  letters :: string
  major :: string
  minorStr :: "string option"
  minor :: "string option"

text \<open>
  An attempt to match at the start of \<open>s\<close>. Every quantifier is greedy. The classes
  \<^verbatim>\<open>[a-z]\<close> and \<^verbatim>\<open>[0-9]\<close> are disjoint, so giving back characters never helps: when
  the longest run of letters is not followed by a digit, a shorter run is followed by a
  letter, and the attempt fails; once the two mandatory groups have matched, the
  optional groups take the longest runs that follow.
\<close>

definition verRegexAt :: "string \<Rightarrow> verExtraction option" where
  "verRegexAt s =
     (let g1 = takeWhile isLower s; r1 = dropWhile isLower s;
          g2 = takeWhile isDigit r1; r2 = dropWhile isDigit r1;
          g3 = takeWhile isLower r2; r3 = dropWhile isLower r2;
          g4 = takeWhile isDigit r3
      in if g1 = [] \<or> g2 = [] then None
         else Some \<lparr>letters = g1, major = g2,
                     minorStr = (if g3 = [] then None else Some g3),
                     minor = (if g4 = [] then None else Some g4)\<rparr>)"

text \<open>
  The pattern is not anchored: \<^verbatim>\<open>exec\<close> tries the start positions from left to right
  and returns the first match, or \<^verbatim>\<open>null\<close> (\<open>None\<close>).
\<close>

fun verRegexExec :: "string \<Rightarrow> verExtraction option" where
  "verRegexExec [] = verRegexAt []"
| "verRegexExec (c # cs) =
     (case verRegexAt (c # cs) of
        Some g \<Rightarrow> Some g
      | None \<Rightarrow> verRegexExec cs)"

text \<open>
  \<^verbatim>\<open>compareAPIVersions(ver1, ver2)\<close>. Indexing a \<^verbatim>\<open>null\<close> match raises a TypeError.
  The captured numerals are strings and are compared as strings.
\<close>

definition compareAPIVersions :: "string \<Rightarrow> string \<Rightarrow> error + int" where
  "compareAPIVersions ver1 ver2 =
     (case verRegexExec ver1 of
        None \<Rightarrow> Inl TypeError
      | Some ver1Extraction \<Rightarrow>
          (case verRegexExec ver2 of
             None \<Rightarrow> Inl TypeError
           | Some ver2Extraction \<Rightarrow>
               (let ver1Major = major ver1Extraction;
                    ver1MinorStr = minorStr ver1Extraction;
                    ver1Minor = minor ver1Extraction;
                    ver2Major = major ver2Extraction;
                    ver2MinorStr = minorStr ver2Extraction;
                    ver2Minor = minor ver2Extraction
                in Inr (if strLess ver2Major ver1Major then 1
                        else if strLess ver1Major ver2Major then - 1
                        else if ver1MinorStr = Some ''beta'' \<and> ver2MinorStr = Some ''alpha'' then 1
                        else if ver1MinorStr = Some ''alpha'' \<and> ver2MinorStr = Some ''beta'' then - 1
                        else if jsLess ver2Minor ver1Minor then 1
                        else if jsLess ver1Minor ver2Minor then - 1
                        else 0))))"

section \<open>The cache of API maps\<close>

text \<open>
  A resource descriptor of a discovery response is \<^verbatim>\<open>{name, namespaced}\<close>; a cached entry is
  \<^verbatim>\<open>{version, namespaced}\<close>, where \<^verbatim>\<open>version\<close> holds a group-version such as \<^verbatim>\<open>apps/v1\<close>.
  Both objects have the field \<^verbatim>\<open>namespaced\<close>.
\<close>

record scoped =
  namespaced :: bool

record resource = scoped +
  name :: string

record groupInfo = scoped +
  version :: string

record resourcesResp =
  groupVersion :: string
  resources :: "resource list"

text \<open>
  \<^verbatim>\<open>apiMaps\<close> is a module-level object: cluster version \<open>\<rightharpoonup>\<close> (resource name \<open>\<rightharpoonup>\<close> entry).
  An object is modelled as the map of its own properties, those the code has stored.
\<close>

type_synonym apiMap = "string \<rightharpoonup> groupInfo"
type_synonym apiMaps = "string \<rightharpoonup> apiMap"

text \<open>
  \<^verbatim>\<open>apiMaps\<close> and the maps in it are created as \<^verbatim>\<open>{}\<close>, so a read \<^verbatim>\<open>obj[key]\<close> that finds
  no own property goes on to \<^verbatim>\<open>Object.prototype\<close>. Its properties are the functions
  below and the accessor \<^verbatim>\<open>__proto__\<close>, which answers \<^verbatim>\<open>Object.prototype\<close> itself on such
  an object.
\<close>

definition objectPrototypeFunctions :: "string list" where
  "objectPrototypeFunctions =
     [''constructor'', ''__defineGetter__'', ''__defineSetter__'', ''hasOwnProperty'',
      ''__lookupGetter__'', ''__lookupSetter__'', ''isPrototypeOf'',
      ''propertyIsEnumerable'', ''toString'', ''valueOf'', ''toLocaleString'']"


text \<open>
  The built-in values that such a read can give (the function found under a name, such
  as \<^verbatim>\<open>Object\<close> under \<^verbatim>\<open>constructor\<close>, or \<^verbatim>\<open>Object.prototype\<close>), and the result of a read:
  an own property, a built-in value, or \<^verbatim>\<open>undefined\<close>. Own properties and built-in
  values are truthy.
\<close>

datatype builtin = BuiltinFunction string | ObjectPrototype

datatype 'a property = Own 'a | Builtin builtin | Missing

definition getProperty :: "(string \<rightharpoonup> 'a) \<Rightarrow> string \<Rightarrow> 'a property" where
  "getProperty obj key =
     (case obj key of
        Some v \<Rightarrow> Own v
      | None \<Rightarrow>
          if key = ''__proto__'' then Builtin ObjectPrototype
          else if key \<in> set objectPrototypeFunctions then Builtin (BuiltinFunction key)
          else Missing)"

text \<open>
  A read on \<^verbatim>\<open>Object.prototype\<close> itself, where \<^verbatim>\<open>__proto__\<close> answers \<^verbatim>\<open>null\<close>: the truthy
  value found, if any.
\<close>

definition prototypeProperty :: "string \<Rightarrow> builtin option" where
  "prototypeProperty key =
     (if key \<in> set objectPrototypeFunctions then Some (BuiltinFunction key) else None)"

text \<open>
  In \<^verbatim>\<open>mapGroupResources\<close> the cluster version is taken as an own key of \<^verbatim>\<open>apiMaps\<close>: with
  a cluster version that names a property of \<^verbatim>\<open>Object.prototype\<close> the code would not
  create a map but work on the built-in object found there, which the cache of the
  model does not hold.
\<close>

text \<open>
  \<^verbatim>\<open>extractVerRegex = /^([^/]+\/)?(v[0-9]+([a-z]+[0-9]+)?)$/\<close>. First the part that group 2
  has to match up to the end of the input: \<^verbatim>\<open>v\<close>, digits, and optionally letters followed
  by digits. The runs are again the longest ones: a shorter run of digits would be
  followed by a digit, a shorter run of letters by a letter, and neither can continue
  the match.
\<close>

definition isVerToken :: "string \<Rightarrow> bool" where
  "isVerToken s =
     (case s of
        [] \<Rightarrow> False
      | c # r \<Rightarrow>
          c = CHR ''v'' \<and>
          (let d = takeWhile isDigit r; r1 = dropWhile isDigit r;
               l = takeWhile isLower r1; r2 = dropWhile isLower r1
           in d \<noteq> [] \<and> (r1 = [] \<or> (l \<noteq> [] \<and> r2 \<noteq> [] \<and> list_all isDigit r2))))"

text \<open>
  \<^verbatim>\<open>extractVerRegex.exec(groupVer)\<close>, giving group 2 of the match (\<open>None\<close> for \<^verbatim>\<open>null\<close>).
  Group 2 holds no \<^verbatim>\<open>/\<close>, so an input with a \<^verbatim>\<open>/\<close> matches only through group 1, which
  ends at the first \<^verbatim>\<open>/\<close> and needs at least one character before it.
\<close>

definition extractVer :: "string \<Rightarrow> string option" where
  "extractVer groupVer =
     (let pre = takeWhile (\<lambda>c. c \<noteq> CHR ''/'') groupVer;
          rest = dropWhile (\<lambda>c. c \<noteq> CHR ''/'') groupVer
      in case rest of
           [] \<Rightarrow> (if isVerToken groupVer then Some groupVer else None)
         | _ # ver \<Rightarrow> (if pre \<noteq> [] \<and> isVerToken ver then Some ver else None))"

text \<open>
  The body of the loop of \<^verbatim>\<open>mapGroupResources\<close>, for one descriptor. \<open>Inl\<close> is a
  TypeError raised by indexing a \<^verbatim>\<open>null\<close> match; the body writes to the map only in its
  last statement, so a raise leaves the map as it was. \<open>preferredGroupVer\<close> is \<open>None\<close> when
  the argument is not passed; an empty string is falsy. When the name is not an own
  property but one of \<^verbatim>\<open>Object.prototype\<close>, the test on line 36 finds the built-in value,
  whose \<^verbatim>\<open>version\<close> is \<^verbatim>\<open>undefined\<close>; \<^verbatim>\<open>exec\<close> then matches against the string
  \<^verbatim>\<open>undefined\<close>, which the pattern rejects, and the body raises.
\<close>

definition mapResource ::
  "string \<Rightarrow> string \<Rightarrow> string option \<Rightarrow> apiMap \<Rightarrow> resource \<Rightarrow> error + apiMap" where
  "mapResource groupVer ver preferredGroupVer m resource =
     (let name = name resource;
          new = \<lparr>namespaced = namespaced resource, version = groupVer\<rparr>
      in if CHR ''/'' \<in> set name then Inr m
         else
           (case getProperty m name of
              Missing \<Rightarrow> Inr (m(name \<mapsto> new))
            | Builtin b \<Rightarrow>
                (case extractVer ''undefined'' of
                   None \<Rightarrow> Inl TypeError
                 | Some currVer \<Rightarrow> Inr (m(name \<mapsto> new)))
            | Own current \<Rightarrow>
                (let currGroupVer = version current in
                 case extractVer currGroupVer of
                   None \<Rightarrow> Inl TypeError
                 | Some currVer \<Rightarrow>
                     if currGroupVer \<noteq> [] \<and>
                        (case preferredGroupVer of
                           None \<Rightarrow> False
                         | Some p \<Rightarrow> p \<noteq> [] \<and> currGroupVer = p)
                     then Inr m
                     else if currGroupVer = [] then Inr (m(name \<mapsto> new))
                     else
                       (case compareAPIVersions currVer ver of
                          Inl e \<Rightarrow> Inl e
                        | Inr c \<Rightarrow> if c < 0 then Inr (m(name \<mapsto> new)) else Inr m))))"

text \<open>The loop over the descriptors: the map reached, and the error that ended the loop.\<close>

fun forResources ::
  "string \<Rightarrow> string \<Rightarrow> string option \<Rightarrow> apiMap \<Rightarrow> resource list \<Rightarrow> apiMap \<times> error option" where
  "forResources groupVer ver preferredGroupVer m [] = (m, None)"
| "forResources groupVer ver preferredGroupVer m (r # rs) =
     (case mapResource groupVer ver preferredGroupVer m r of
        Inl e \<Rightarrow> (m, Some e)
      | Inr m' \<Rightarrow> forResources groupVer ver preferredGroupVer m' rs)"

text \<open>
  \<^verbatim>\<open>mapGroupResources(clusterVer, resourcesResp, preferredGroupVer)\<close>: the new value of
  \<^verbatim>\<open>apiMaps\<close>, and what the call returns (the map of the cluster version) or raises. A
  group-version that the pattern rejects raises before the cache is touched.
\<close>

definition mapGroupResources ::
  "apiMaps \<Rightarrow> string \<Rightarrow> resourcesResp \<Rightarrow> string option \<Rightarrow> apiMaps \<times> (error + apiMap)" where
  "mapGroupResources apiMaps clusterVer resourcesResp preferredGroupVer =
     (let groupVer = groupVersion resourcesResp in
      case extractVer groupVer of
        None \<Rightarrow> (apiMaps, Inl TypeError)
      | Some ver \<Rightarrow>
          (let m0 = (case apiMaps clusterVer of None \<Rightarrow> Map.empty | Some m \<Rightarrow> m);
               looped = forResources groupVer ver preferredGroupVer m0 (resources resourcesResp)
           in ((apiMaps(clusterVer \<mapsto> fst looped)),
               (case snd looped of None \<Rightarrow> Inr (fst looped) | Some e \<Rightarrow> Inl e))))"

text \<open>The entry cached for a resource name under a cluster version, if any.\<close>

definition entryAt :: "apiMaps \<Rightarrow> string \<Rightarrow> string \<Rightarrow> groupInfo option" where
  "entryAt apiMaps clusterVer resourceName =
     (case apiMaps clusterVer of None \<Rightarrow> None | Some m \<Rightarrow> m resourceName)"

section \<open>Lookup\<close>

text \<open>
  \<^verbatim>\<open>String.prototype.toLowerCase\<close> on the code units below 256: the capital letters are
  \<^verbatim>\<open>A\<close> to \<^verbatim>\<open>Z\<close> (65 to 90) and the accented capitals 192 to 222 without the
  multiplication sign 215, and each has its small letter 32 places further on. No other
  code unit below 256 changes.
\<close>

definition isCapital :: "char \<Rightarrow> bool" where
  "isCapital c \<longleftrightarrow>
     (65 \<le> (of_char c :: nat) \<and> (of_char c :: nat) \<le> 90) \<or>
     (192 \<le> (of_char c :: nat) \<and> (of_char c :: nat) \<le> 222 \<and> (of_char c :: nat) \<noteq> 215)"

definition toLowerCase :: "string \<Rightarrow> string" where
  "toLowerCase s =
     map (\<lambda>c. if isCapital c then char_of ((of_char c :: nat) + 32) else c) s"

text \<open>
  What \<^verbatim>\<open>getGroupInfo\<close> returns: \<^verbatim>\<open>undefined\<close>, one cached entry, the whole map of the
  cluster version, or a built-in value that a read has found on \<^verbatim>\<open>Object.prototype\<close>.
\<close>

datatype lookup = Undefined | Info groupInfo | Whole apiMap | BuiltinValue builtin

text \<open>
  \<^verbatim>\<open>getGroupInfo(clusterVersion, resourceType)\<close>. An argument is \<open>None\<close> when it is missing
  or not a string; the empty string is falsy. \<^verbatim>\<open>apiMaps[clusterVersion]\<close> is a map of the
  cache, or a built-in value: a function fails the test \<^verbatim>\<open>typeof ... === 'object'\<close>, and
  \<^verbatim>\<open>Object.prototype\<close> (under \<^verbatim>\<open>__proto__\<close>) passes it, so that the two reads and the
  fallback then work on \<^verbatim>\<open>Object.prototype\<close>.
\<close>

definition getGroupInfo :: "apiMaps \<Rightarrow> string option \<Rightarrow> string option \<Rightarrow> lookup" where
  "getGroupInfo apiMaps clusterVersion resourceType =
     (case clusterVersion of
        None \<Rightarrow> Undefined
      | Some cv \<Rightarrow>
          if cv = [] then Undefined
          else
            (case resourceType of
               None \<Rightarrow> Undefined
             | Some rt \<Rightarrow>
                 if rt = [] then Undefined
                 else
                   (let rt' = toLowerCase rt in
                    case getProperty apiMaps cv of
                      Missing \<Rightarrow> Undefined
                    | Builtin (BuiltinFunction f) \<Rightarrow> Undefined
                    | Builtin ObjectPrototype \<Rightarrow>
                        (case prototypeProperty rt' of
                           Some b \<Rightarrow> BuiltinValue b
                         | None \<Rightarrow>
                             (case prototypeProperty (rt' @ ''s'') of
                                Some b \<Rightarrow> BuiltinValue b
                              | None \<Rightarrow> BuiltinValue ObjectPrototype))
                    | Own m \<Rightarrow>
                        (case getProperty m rt' of
                           Own info \<Rightarrow> Info info
                         | Builtin b \<Rightarrow> BuiltinValue b
                         | Missing \<Rightarrow>
                             (case getProperty m (rt' @ ''s'') of
                                Own info \<Rightarrow> Info info
                              | Builtin b \<Rightarrow> BuiltinValue b
                              | Missing \<Rightarrow> Whole m)))))"

section \<open>Sequences of folds\<close>

text \<open>
  The cache after a sequence of calls of \<^verbatim>\<open>mapGroupResources\<close>, each given as (cluster
  version, response, preferred group-version); a call that raises keeps what it wrote.
\<close>

type_synonym foldCall = "string \<times> resourcesResp \<times> string option"

fun foldAll :: "apiMaps \<Rightarrow> foldCall list \<Rightarrow> apiMaps" where
  "foldAll apiMaps [] = apiMaps"
| "foldAll apiMaps ((clusterVer, resourcesResp, preferredGroupVer) # calls) =
     foldAll (fst (mapGroupResources apiMaps clusterVer resourcesResp preferredGroupVer)) calls"


section \<open>Helpers of \<^verbatim>\<open>utils.js\<close>\<close>

text \<open>\<^verbatim>\<open>s.substr(start, length)\<close> for indices inside the string.\<close>

definition substr :: "string \<Rightarrow> nat \<Rightarrow> nat \<Rightarrow> string" where
  "substr s start len = take len (drop start s)"

text \<open>
  \<^verbatim>\<open>removeTrailingSlash(url)\<close>: the statement under the \<^verbatim>\<open>if\<close> computes
  \<^verbatim>\<open>url.substr(0, url.length - 1)\<close> and drops the value; strings are immutable, and the
  function returns \<^verbatim>\<open>url\<close>. On the empty string \<^verbatim>\<open>url[-1]\<close> is \<^verbatim>\<open>undefined\<close>.
\<close>

definition removeTrailingSlash :: "string \<Rightarrow> string" where
  "removeTrailingSlash url =
     (if url \<noteq> [] \<and> last url = CHR ''/''
      then (let discarded = substr url 0 (length url - 1) in url)
      else url)"

text \<open>\<^verbatim>\<open>verStr.split('.')\<close>: the pieces between the separators, at least one piece.\<close>

fun split :: "char \<Rightarrow> string \<Rightarrow> string list" where
  "split sep [] = [[]]"
| "split sep (c # cs) =
     (if c = sep then [] # split sep cs
      else (case split sep cs of
              [] \<Rightarrow> [[c]]
            | p # ps \<Rightarrow> (c # p) # ps))"

text \<open>The loop of \<^verbatim>\<open>prettifyVersion\<close>, from index \<open>i\<close> on.\<close>

fun prettyFrom :: "nat \<Rightarrow> string list \<Rightarrow> string" where
  "prettyFrom i [] = []"
| "prettyFrom i (x # xs) = (if 0 < i then ''.'' else []) @ x @ prettyFrom (Suc i) xs"

text \<open>\<^verbatim>\<open>prettifyVersion(verStr, precision)\<close>; a precision of 0 is falsy and becomes 3.\<close>

definition prettifyVersion :: "string \<Rightarrow> nat \<Rightarrow> string" where
  "prettifyVersion verStr precision =
     (let precision = (if precision = 0 then 3 else precision);
          versionArr = split (CHR ''.'') verStr;
          versionArr =
            (case versionArr of
               [] \<Rightarrow> []
             | first # others \<Rightarrow>
                 (if first \<noteq> [] \<and> hd first = CHR ''v''
                  then substr first 1 (length first) # others
                  else first # others))
      in prettyFrom 0 (take precision versionArr))"

text \<open>
  A raised or rejected value, with the fields \<^verbatim>\<open>axiosHandler\<close> reads and writes:
  \<^verbatim>\<open>response\<close> (status and status text of the HTTP answer, when there was one),
  \<^verbatim>\<open>message\<close> and \<^verbatim>\<open>statusCode\<close>.
\<close>

record httpResponse =
  status :: int
  statusText :: string

record jsError =
  response :: "httpResponse option"
  message :: string
  statusCode :: "int option"

definition axiosHandler :: "jsError \<Rightarrow> jsError" where
  "axiosHandler axiosErr =
     (case response axiosErr of
        Some res \<Rightarrow> \<lparr>response = None, message = statusText res, statusCode = Some (status res)\<rparr>
      | None \<Rightarrow> \<lparr>response = None, message = message axiosErr, statusCode = Some 500\<rparr>)"

text \<open>The TypeError of the runtime as such a value; its message text is not modelled.\<close>

definition thrown :: "error \<Rightarrow> jsError" where
  "thrown e = \<lparr>response = None, message = ''TypeError'', statusCode = None\<rparr>"

section \<open>Building the map of a cluster\<close>

text \<open>
  \<^verbatim>\<open>buildAPIMap(kubeconfig)\<close> talks to the cluster through \<^verbatim>\<open>Client.getVersion\<close> and
  \<^verbatim>\<open>axios.get\<close>. The cluster is a parameter of the model: what the version request
  settles with, what a GET of each URL settles with (\<open>Inl\<close> is a rejection), and the order
  in which the pending requests for resource lists are answered, which is the order in
  which their callbacks run.
\<close>

record apiGroup =
  preferredVersion :: string
  versions :: "string list"

datatype data = ResourceList resourcesResp | GroupList "apiGroup list"

type_synonym request = "string \<times> string option"

record network =
  getVersion :: "jsError + string"
  axiosGet :: "string \<Rightarrow> jsError + data"
  arrival :: "request list \<Rightarrow> request list"

record kubeconfig =
  server :: string

text \<open>
  How the promise of \<^verbatim>\<open>buildAPIMap\<close> settles: rejected with one error, rejected with the
  array \<^verbatim>\<open>errs\<close>, or resolved with \<^verbatim>\<open>apiMaps[clusterVer]\<close>.
\<close>

datatype settled = Rejected jsError | RejectedAll "jsError list" | Resolved "apiMap option"

text \<open>
  The callbacks of the requests for resource lists, in the order of their answers. Each
  has its own \<^verbatim>\<open>catch\<close>, which appends to \<^verbatim>\<open>errs\<close>: a failed GET and a fold that raises
  both end there, and the remaining requests go on. A body without a \<^verbatim>\<open>groupVersion\<close>
  makes \<^verbatim>\<open>mapGroupResources\<close> raise at its pattern match.
\<close>

fun groupReqs :: "network \<Rightarrow> string \<Rightarrow> apiMaps \<Rightarrow> jsError list \<Rightarrow> request list \<Rightarrow> apiMaps \<times> jsError list" where
  "groupReqs net clusterVer apiMaps errs [] = (apiMaps, errs)"
| "groupReqs net clusterVer apiMaps errs ((url, preferredGroupVer) # reqs) =
     (case axiosGet net url of
        Inl err \<Rightarrow> groupReqs net clusterVer apiMaps (errs @ [axiosHandler err]) reqs
      | Inr (GroupList gs) \<Rightarrow>
          groupReqs net clusterVer apiMaps (errs @ [axiosHandler (thrown TypeError)]) reqs
      | Inr (ResourceList resp) \<Rightarrow>
          (case mapGroupResources apiMaps clusterVer resp preferredGroupVer of
             (apiMaps', Inl e) \<Rightarrow>
               groupReqs net clusterVer apiMaps' (errs @ [axiosHandler (thrown e)]) reqs
           | (apiMaps', Inr m) \<Rightarrow> groupReqs net clusterVer apiMaps' errs reqs))"

text \<open>
  \<^verbatim>\<open>buildAPIMap\<close>: the cache once every callback has run, and how the returned promise
  settles. The request for the core group is issued before the list of groups is
  fetched, so its callback runs even when that fetch fails. Of the kubeconfig the model
  keeps the server address of the current context; \<open>None\<close> is an argument that is not
  an object, rejected at once (the code marks that error with \<^verbatim>\<open>status = 400\<close>, a field
  the model does not carry).
\<close>

definition buildAPIMap :: "apiMaps \<Rightarrow> kubeconfig option \<Rightarrow> network \<Rightarrow> apiMaps \<times> settled" where
  "buildAPIMap apiMaps kubeconfig net =
     (case kubeconfig of
        None \<Rightarrow>
          (apiMaps,
           Rejected \<lparr>response = None, message = ''Invalid 'kubeconfig' object given'', statusCode = None\<rparr>)
      | Some config \<Rightarrow>
          (case getVersion net of
             Inl err \<Rightarrow> (apiMaps, Rejected (axiosHandler err))
           | Inr gitVersion \<Rightarrow>
               (let clusterVer = prettifyVersion gitVersion 2;
                    serverBaseURL = removeTrailingSlash (server config);
                    coreGroupReq = (serverBaseURL @ ''/api/v1'', None)
                in case axiosGet net (serverBaseURL @ ''/apis'') of
                     Inl err \<Rightarrow>
                       (fst (groupReqs net clusterVer apiMaps [] [coreGroupReq]),
                        Rejected (axiosHandler err))
                   | Inr (ResourceList resp) \<Rightarrow>
                       (fst (groupReqs net clusterVer apiMaps [] [coreGroupReq]),
                        Rejected (axiosHandler (thrown TypeError)))
                   | Inr (GroupList apiGroups) \<Rightarrow>
                       (let reqs = coreGroupReq #
                              concat (map (\<lambda>group.
                                map (\<lambda>groupVersion.
                                       (serverBaseURL @ ''/apis/'' @ groupVersion,
                                        Some (preferredVersion group)))
                                    (versions group)) apiGroups);
                            ran = groupReqs net clusterVer apiMaps [] (arrival net reqs);
                            errs = snd ran
                        in (fst ran,
                            if 0 < length errs then RejectedAll errs
                            else Resolved (fst ran clusterVer))))))"

section \<open>Concrete inputs\<close>

text \<open>Descriptors and responses of a cluster of version 1.8, used to run the code.\<close>

definition pods :: resource where
  "pods = \<lparr>namespaced = True, name = ''pods''\<rparr>"

definition podsLog :: resource where
  "podsLog = \<lparr>namespaced = True, name = ''pods/log''\<rparr>"

definition deployments :: resource where
  "deployments = \<lparr>namespaced = True, name = ''deployments''\<rparr>"

definition coreResp :: resourcesResp where
  "coreResp = \<lparr>groupVersion = ''v1'', resources = [pods, podsLog]\<rparr>"

definition corePodsResp :: resourcesResp where
  "corePodsResp = \<lparr>groupVersion = ''v1'', resources = [pods]\<rparr>"

definition appsV1beta1Resp :: resourcesResp where
  "appsV1beta1Resp = \<lparr>groupVersion = ''apps/v1beta1'', resources = [deployments]\<rparr>"

definition appsV1beta2Resp :: resourcesResp where
  "appsV1beta2Resp = \<lparr>groupVersion = ''apps/v1beta2'', resources = [deployments]\<rparr>"

definition appsV1Resp :: resourcesResp where
  "appsV1Resp = \<lparr>groupVersion = ''apps/v1'', resources = [deployments]\<rparr>"

definition extensionsV1beta1Resp :: resourcesResp where
  "extensionsV1beta1Resp = \<lparr>groupVersion = ''extensions/v1beta1'', resources = [deployments]\<rparr>"

text \<open>
  The core group folded without a preferred group-version, then \<^verbatim>\<open>apps/v1beta1\<close> and
  \<^verbatim>\<open>apps/v1\<close> folded with the preferred group-version \<^verbatim>\<open>apps/v1\<close>, starting from the
  empty cache.
\<close>

definition scenarioCalls :: "foldCall list" where
  "scenarioCalls =
     [(''1.8'', corePodsResp, None),
      (''1.8'', appsV1beta1Resp, Some ''apps/v1''),
      (''1.8'', appsV1Resp, Some ''apps/v1'')]"

definition preferredScenario :: apiMaps where
  "preferredScenario = foldAll Map.empty scenarioCalls"



text \<open>A response with a descriptor named as a property of \<^verbatim>\<open>Object.prototype\<close>.\<close>

definition constructorDescriptor :: resource where
  "constructorDescriptor = \<lparr>namespaced = False, name = ''constructor''\<rparr>"

definition constructorResp :: resourcesResp where
  "constructorResp =
     \<lparr>groupVersion = ''v1'', resources = [pods, constructorDescriptor, deployments]\<rparr>"

text \<open>The same calls with \<^verbatim>\<open>apps/v1\<close> folded before \<^verbatim>\<open>apps/v1beta1\<close>.\<close>

definition swappedCalls :: "foldCall list" where
  "swappedCalls =
     [(''1.8'', corePodsResp, None),
      (''1.8'', appsV1Resp, Some ''apps/v1''),
      (''1.8'', appsV1beta1Resp, Some ''apps/v1'')]"

text \<open>A group that serves a resource under the versions \<^verbatim>\<open>v9\<close> and \<^verbatim>\<open>v10\<close>.\<close>

definition widgets :: resource where
  "widgets = \<lparr>namespaced = False, name = ''widgets''\<rparr>"

definition exampleV9Resp :: resourcesResp where
  "exampleV9Resp = \<lparr>groupVersion = ''example.com/v9'', resources = [widgets]\<rparr>"

definition exampleV10Resp :: resourcesResp where
  "exampleV10Resp = \<lparr>groupVersion = ''example.com/v10'', resources = [widgets]\<rparr>"

text \<open>
  The cache after \<^verbatim>\<open>extensions/v1beta1\<close> has been folded with the preferred group-version
  of its group, and then after \<^verbatim>\<open>apps/v1beta2\<close> has been folded with the preferred
  group-version of the group \<^verbatim>\<open>apps\<close>.
\<close>

definition extensionsFolded :: apiMaps where
  "extensionsFolded =
     foldAll Map.empty [(''1.8'', extensionsV1beta1Resp, Some ''extensions/v1beta1'')]"

definition appsFoldedAfter :: apiMaps where
  "appsFoldedAfter =
     foldAll extensionsFolded [(''1.8'', appsV1beta2Resp, Some ''apps/v1beta2'')]"

text \<open>The cache after \<^verbatim>\<open>apps/v1beta1\<close> has been folded as the preferred group-version.\<close>

definition appsV1beta1Folded :: apiMaps where
  "appsV1beta1Folded =
     foldAll Map.empty [(''1.8'', appsV1beta1Resp, Some ''apps/v1beta1'')]"

text \<open>
  A cluster that answers every request but the one for \<^verbatim>\<open>apps/v1\<close>, which fails with
  status 503; the answers arrive in the order of the requests.
\<close>

definition unavailable :: jsError where
  "unavailable =
     \<lparr>response = Some \<lparr>status = 503, statusText = ''Service Unavailable''\<rparr>,
      message = ''Request failed with status code 503'', statusCode = None\<rparr>"

definition flakyGet :: "string \<Rightarrow> jsError + data" where
  "flakyGet url =
     (if url = ''https://k8s/api/v1'' then Inr (ResourceList corePodsResp)
      else if url = ''https://k8s/apis''
        then Inr (GroupList [\<lparr>preferredVersion = ''apps/v1'',
                              versions = [''apps/v1'', ''apps/v1beta1'']\<rparr>])
      else if url = ''https://k8s/apis/apps/v1beta1'' then Inr (ResourceList appsV1beta1Resp)
      else Inl unavailable)"

definition flakyCluster :: network where
  "flakyCluster = \<lparr>getVersion = Inr ''v1.8.3'', axiosGet = flakyGet, arrival = (\<lambda>reqs. reqs)\<rparr>"

section \<open>The patterns and the comparator on well-formed tokens\<close>

lemma strLess_irrefl: "\<not> strLess s s"
  by (induction s) auto

lemma jsLess_irrefl: "\<not> jsLess a a"
  by (cases a) (auto simp: strLess_irrefl)

lemma digit_not_lower: "isDigit c \<Longrightarrow> \<not> isLower c"
  by (simp add: isDigit_def isLower_def)

lemma lower_not_digit: "isLower c \<Longrightarrow> \<not> isDigit c"
  by (simp add: isDigit_def isLower_def)

lemma v_is_lower: "isLower (CHR ''v'')"
  by (simp add: isLower_def)

lemma takeWhile_lower_digits:
  assumes "takeWhile isDigit r \<noteq> []"
  shows "takeWhile isLower r = []" and "dropWhile isLower r = r"
proof -
  from assms obtain d ds where r: "r = d # ds" and d: "isDigit d"
    by (cases r) (auto split: if_splits)
  show "takeWhile isLower r = []" using r d by (simp add: digit_not_lower)
  show "dropWhile isLower r = r" using r d by (simp add: digit_not_lower)
qed

text \<open>A token that \<^verbatim>\<open>extractVerRegex\<close> captured is matched by \<^verbatim>\<open>verRegex\<close>, at index 0.\<close>

lemma verRegexAt_token:
  assumes "isVerToken t"
  shows "\<exists>e. verRegexAt t = Some e"
proof -
  from assms obtain r where t: "t = CHR ''v'' # r" and d: "takeWhile isDigit r \<noteq> []"
    by (cases t) (auto simp: isVerToken_def Let_def)
  show ?thesis
    using d takeWhile_lower_digits [OF d]
    by (simp add: t verRegexAt_def Let_def v_is_lower)
qed

lemma verRegexExec_token:
  assumes "isVerToken t"
  shows "\<exists>e. verRegexExec t = Some e"
proof -
  from verRegexAt_token [OF assms] obtain e where e: "verRegexAt t = Some e" ..
  then show ?thesis by (cases t) auto
qed

lemma extractVer_token: "extractVer g = Some t \<Longrightarrow> isVerToken t"
  by (auto simp: extractVer_def Let_def split: list.splits if_splits)

lemma extractVer_nonempty: "extractVer g = Some t \<Longrightarrow> g \<noteq> []"
  by (auto simp: extractVer_def isVerToken_def)

lemma compare_same:
  assumes "verRegexExec t = Some e"
  shows "compareAPIVersions t t = Inr 0"
  using assms by (simp add: compareAPIVersions_def Let_def strLess_irrefl jsLess_irrefl)

text \<open>Inside \<^verbatim>\<open>mapGroupResources\<close> the comparator never raises.\<close>

lemma compare_tokens:
  assumes "extractVer g1 = Some t1" and "extractVer g2 = Some t2"
  shows "\<exists>c. compareAPIVersions t1 t2 = Inr c"
proof -
  obtain e1 where e1: "verRegexExec t1 = Some e1"
    using verRegexExec_token [OF extractVer_token [OF assms(1)]] ..
  obtain e2 where e2: "verRegexExec t2 = Some e2"
    using verRegexExec_token [OF extractVer_token [OF assms(2)]] ..
  show ?thesis by (simp add: compareAPIVersions_def e1 e2 Let_def)
qed

lemma compare_extracted_same:
  assumes "extractVer g = Some t"
  shows "compareAPIVersions t t = Inr 0"
proof -
  obtain e where "verRegexExec t = Some e"
    using verRegexExec_token [OF extractVer_token [OF assms]] ..
  then show ?thesis by (rule compare_same)
qed

text \<open>The groups of a token \<^verbatim>\<open>v\<close>, digits, letters, digits.\<close>

lemma takeWhile_all:
  "list_all P xs \<Longrightarrow> ys = [] \<or> \<not> P (hd ys) \<Longrightarrow> takeWhile P (xs @ ys) = xs"
  by (induction xs) (auto simp: takeWhile_eq_Nil_iff neq_Nil_conv)

lemma dropWhile_all:
  "list_all P xs \<Longrightarrow> ys = [] \<or> \<not> P (hd ys) \<Longrightarrow> dropWhile P (xs @ ys) = ys"
  by (induction xs) (auto simp: dropWhile_eq_self_iff neq_Nil_conv)

lemma verRegexExec_labelled:
  assumes M: "M \<noteq> []" "list_all isDigit M"
    and L: "L \<noteq> []" "list_all isLower L"
    and N: "list_all isDigit N"
  shows "verRegexExec (CHR ''v'' # M @ L @ N) =
           Some \<lparr>letters = ''v'', major = M, minorStr = Some L,
                 minor = (if N = [] then None else Some N)\<rparr>"
proof -
  have hM: "\<not> isLower (hd (M @ L @ N))"
    using M by (cases M) (auto simp: digit_not_lower)
  have hL: "\<not> isDigit (hd (L @ N))"
    using L by (cases L) (auto simp: lower_not_digit)
  have hN: "N = [] \<or> \<not> isLower (hd N)"
    using N by (cases N) (auto simp: digit_not_lower)
  have 1: "takeWhile isLower (M @ L @ N) = []" "dropWhile isLower (M @ L @ N) = M @ L @ N"
    using hM M(1) by (cases M; simp)+
  have 2: "takeWhile isDigit (M @ L @ N) = M" "dropWhile isDigit (M @ L @ N) = L @ N"
    using M(2) hL L(1) by (simp_all add: takeWhile_all dropWhile_all)
  have 3: "takeWhile isLower (L @ N) = L" "dropWhile isLower (L @ N) = N"
    using L(2) hN by (simp_all add: takeWhile_all dropWhile_all)
  have 4: "takeWhile isDigit N = N"
    using N by (simp add: list_all_iff)
  have "verRegexAt (CHR ''v'' # M @ L @ N) =
           Some \<lparr>letters = ''v'', major = M, minorStr = Some L,
                 minor = (if N = [] then None else Some N)\<rparr>"
    using M(1) L(1) by (simp add: verRegexAt_def Let_def v_is_lower 1 2 3 4)
  then show ?thesis by simp
qed

section \<open>Evaluating the patterns and the comparator\<close>

lemma extractVer_v1: "extractVer ''v1'' = Some ''v1''"
  by code_simp

lemma extractVer_apps_v1: "extractVer ''apps/v1'' = Some ''v1''"
  by code_simp

lemma extractVer_apps_v1beta1: "extractVer ''apps/v1beta1'' = Some ''v1beta1''"
  by code_simp

lemma extractVer_apps_v1beta2: "extractVer ''apps/v1beta2'' = Some ''v1beta2''"
  by code_simp

lemma extractVer_extensions_v1beta1: "extractVer ''extensions/v1beta1'' = Some ''v1beta1''"
  by code_simp

lemma compare_v1beta1_v1: "compareAPIVersions ''v1beta1'' ''v1'' = Inr 0"
  by code_simp

lemma compare_v1beta1_v1beta2: "compareAPIVersions ''v1beta1'' ''v1beta2'' = Inr (- 1)"
  by code_simp

lemma regex_v1beta1:
  "verRegexExec ''v1beta1'' =
     Some \<lparr>letters = ''v'', major = ''1'', minorStr = Some ''beta'', minor = Some ''1''\<rparr>"
  by code_simp

lemma regex_v1alpha9:
  "verRegexExec ''v1alpha9'' =
     Some \<lparr>letters = ''v'', major = ''1'', minorStr = Some ''alpha'', minor = Some ''9''\<rparr>"
  by code_simp

lemma extractVer_undefined: "extractVer ''undefined'' = None"
  by code_simp

lemmas fold_defs = mapGroupResources_def mapResource_def getProperty_def
  objectPrototypeFunctions_def Let_def pods_def podsLog_def
  deployments_def coreResp_def corePodsResp_def appsV1beta1Resp_def appsV1beta2Resp_def
  appsV1Resp_def extensionsV1beta1Resp_def

section \<open>The comparator\<close>

text \<open>
  C8. When \<^verbatim>\<open>verRegex\<close> extracts the same major numeral from two tokens, the label
  \<^verbatim>\<open>beta\<close> from the first and the label \<^verbatim>\<open>alpha\<close> from the second, the comparator ranks
  the first above the second and the second below the first, whatever the minor
  numerals are.
\<close>

theorem beta_above_alpha:
  assumes "verRegexExec a = Some ea" and "verRegexExec b = Some eb"
    and "major ea = major eb"
    and "minorStr ea = Some ''beta''" and "minorStr eb = Some ''alpha''"
  shows "compareAPIVersions a b = Inr 1 \<and> compareAPIVersions b a = Inr (- 1)"
  using assms by (simp add: compareAPIVersions_def Let_def strLess_irrefl)

theorem beta_above_alpha_witness:
  "compareAPIVersions ''v1beta1'' ''v1alpha9'' = Inr 1 \<and>
   compareAPIVersions ''v1alpha9'' ''v1beta1'' = Inr (- 1)"
  using beta_above_alpha [OF regex_v1beta1 regex_v1alpha9] by simp

text \<open>The same for the tokens as they are written: \<^verbatim>\<open>v\<close>, major, label, minor.\<close>

corollary labelled_tokens_beta_alpha:
  assumes "M \<noteq> []" and "list_all isDigit M" and "list_all isDigit N1" and "list_all isDigit N2"
  shows "compareAPIVersions (CHR ''v'' # M @ ''beta'' @ N1) (CHR ''v'' # M @ ''alpha'' @ N2) = Inr 1"
    and "compareAPIVersions (CHR ''v'' # M @ ''alpha'' @ N2) (CHR ''v'' # M @ ''beta'' @ N1) = Inr (- 1)"
proof -
  have b: "verRegexExec (CHR ''v'' # M @ ''beta'' @ N1) =
      Some \<lparr>letters = ''v'', major = M, minorStr = Some ''beta'',
            minor = (if N1 = [] then None else Some N1)\<rparr>"
    using assms by (intro verRegexExec_labelled) (simp_all add: isLower_def)
  have a: "verRegexExec (CHR ''v'' # M @ ''alpha'' @ N2) =
      Some \<lparr>letters = ''v'', major = M, minorStr = Some ''alpha'',
            minor = (if N2 = [] then None else Some N2)\<rparr>"
    using assms by (intro verRegexExec_labelled) (simp_all add: isLower_def)
  show "compareAPIVersions (CHR ''v'' # M @ ''beta'' @ N1) (CHR ''v'' # M @ ''alpha'' @ N2) = Inr 1"
    unfolding compareAPIVersions_def a b by (simp add: Let_def strLess_irrefl)
  show "compareAPIVersions (CHR ''v'' # M @ ''alpha'' @ N2) (CHR ''v'' # M @ ''beta'' @ N1) = Inr (- 1)"
    unfolding compareAPIVersions_def a b by (simp add: Let_def strLess_irrefl)
qed

text \<open>
  C2. The major numerals are compared as strings: \<^verbatim>\<open>v10\<close> against \<^verbatim>\<open>v9\<close> gives -1, and
  \<^verbatim>\<open>v9\<close> against \<^verbatim>\<open>v10\<close> gives 1, although 10 is the larger integer.
\<close>

theorem compare_major_v10_v9:
  "compareAPIVersions ''v10'' ''v9'' = Inr (- 1) \<and> compareAPIVersions ''v9'' ''v10'' = Inr 1"
  by code_simp

text \<open>
  Through the fold: \<^verbatim>\<open>example.com/v10\<close> folded after \<^verbatim>\<open>example.com/v9\<close> does not replace
  it.
\<close>

lemma fold_v10_after_v9:
  "entryAt (foldAll Map.empty [(''1.8'', exampleV9Resp, None), (''1.8'', exampleV10Resp, None)])
     ''1.8'' ''widgets'' = Some \<lparr>namespaced = False, version = ''example.com/v9''\<rparr>"
proof -
  have 9: "extractVer ''example.com/v9'' = Some ''v9''"
    by code_simp
  have 10: "extractVer ''example.com/v10'' = Some ''v10''"
    by code_simp
  have c: "compareAPIVersions ''v9'' ''v10'' = Inr 1"
    by code_simp
  show ?thesis
    by (simp add: mapGroupResources_def mapResource_def getProperty_def
        objectPrototypeFunctions_def Let_def exampleV9Resp_def
        exampleV10Resp_def widgets_def entryAt_def 9 10 c)
qed

text \<open>
  C3. With equal majors and labels that do not decide, the minor numerals are compared
  as strings, and a missing minor numeral compares neither below nor above a present
  one: \<^verbatim>\<open>v1beta10\<close> against \<^verbatim>\<open>v1beta2\<close> gives -1, and \<^verbatim>\<open>v1beta1\<close> against \<^verbatim>\<open>v1\<close> gives 0 in
  both directions.
\<close>

theorem compare_minor_examples:
  "compareAPIVersions ''v1beta10'' ''v1beta2'' = Inr (- 1) \<and>
   compareAPIVersions ''v1beta1'' ''v1'' = Inr 0 \<and>
   compareAPIVersions ''v1'' ''v1beta1'' = Inr 0"
  by code_simp

section \<open>Reading a property\<close>

lemma getProperty_own: "obj key = Some v \<Longrightarrow> getProperty obj key = Own v"
  by (simp add: getProperty_def)


lemma getProperty_Own_iff: "(getProperty obj key = Own v) = (obj key = Some v)"
  by (simp add: getProperty_def split: option.splits)

lemma getProperty_Missing_None: "getProperty obj key = Missing \<Longrightarrow> obj key = None"
  by (simp add: getProperty_def split: option.splits if_splits)

lemma getProperty_Builtin_None: "getProperty obj key = Builtin b \<Longrightarrow> obj key = None"
  by (simp add: getProperty_def split: option.splits if_splits)

lemma getProperty_upd_other:
  "key \<noteq> k \<Longrightarrow> getProperty (obj(k \<mapsto> v)) key = getProperty obj key"
  by (simp add: getProperty_def)



section \<open>One descriptor\<close>

lemma mapResource_sub:
  "CHR ''/'' \<in> set (name r) \<Longrightarrow> mapResource gv ver pref m r = Inr m"
  by (simp add: mapResource_def Let_def)

text \<open>
  The body as a case distinction on the own property under the name: a built-in value
  makes it raise, a missing property makes it write.
\<close>

lemma mapResource_builtin:
  assumes "CHR ''/'' \<notin> set (name r)" and "getProperty m (name r) = Builtin b"
  shows "mapResource gv ver pref m r = Inl TypeError"
  using assms by (simp add: mapResource_def Let_def extractVer_undefined)

lemma mapResource_missing:
  assumes "CHR ''/'' \<notin> set (name r)" and "getProperty m (name r) = Missing"
  shows "mapResource gv ver pref m r =
           Inr (m(name r \<mapsto> \<lparr>namespaced = namespaced r, version = gv\<rparr>))"
  using assms by (simp add: mapResource_def Let_def)

lemma mapResource_own:
  assumes "CHR ''/'' \<notin> set (name r)" and "m (name r) = Some current"
  shows "mapResource gv ver pref m r =
           (case extractVer (version current) of
              None \<Rightarrow> Inl TypeError
            | Some currVer \<Rightarrow>
                if version current \<noteq> [] \<and>
                   (case pref of None \<Rightarrow> False | Some p \<Rightarrow> p \<noteq> [] \<and> version current = p)
                then Inr m
                else if version current = []
                  then Inr (m(name r \<mapsto> \<lparr>namespaced = namespaced r, version = gv\<rparr>))
                else
                  (case compareAPIVersions currVer ver of
                     Inl e \<Rightarrow> Inl e
                   | Inr c \<Rightarrow>
                       if c < 0
                       then Inr (m(name r \<mapsto> \<lparr>namespaced = namespaced r, version = gv\<rparr>))
                       else Inr m))"
  using assms by (simp add: mapResource_def Let_def getProperty_own)

lemma mapResource_other:
  assumes "mapResource gv ver pref m r = Inr m'" and "name r \<noteq> k"
  shows "m' k = m k"
  using assms
  by (auto simp: mapResource_def Let_def
      split: if_splits option.splits sum.splits property.splits)

lemma mapResource_sticky:
  assumes "mapResource gv ver (Some (version info)) m r = Inr m'" and "m k = Some info"
  shows "m' k = Some info"
proof (cases "name r = k")
  case False
  with assms show ?thesis by (simp add: mapResource_other)
next
  case True
  show ?thesis
  proof (cases "CHR ''/'' \<in> set (name r)")
    case True
    with assms show ?thesis by (simp add: mapResource_sub)
  next
    case False
    with assms \<open>name r = k\<close> show ?thesis
      by (auto simp: mapResource_own dest: extractVer_nonempty
          split: if_splits option.splits sum.splits)
  qed
qed

text \<open>An entry that this response has written is kept by the body.\<close>

lemma mapResource_fresh:
  assumes "CHR ''/'' \<notin> set (name r)"
    and "m (name r) = Some \<lparr>namespaced = ns, version = gv\<rparr>"
    and "extractVer gv = Some ver"
  shows "mapResource gv ver pref m r = Inr m"
proof -
  have "gv \<noteq> []"
    using assms(3) by (rule extractVer_nonempty)
  then show ?thesis
    using mapResource_own [where m = m and r = r and gv = gv and ver = ver and pref = pref,
        OF assms(1,2)] assms(3) compare_extracted_same [OF assms(3)]
    by simp
qed

text \<open>
  Whether the body keeps an own entry depends on the entry alone: what it does on one
  map it does on every map with the same entry under the name.
\<close>

lemma mapResource_noop_transfer:
  assumes slash: "CHR ''/'' \<notin> set (name d)" and same: "name r = name d"
    and own: "m (name d) = Some current" and own': "m' (name d) = Some current"
    and gv: "extractVer gv = Some ver"
    and noop: "mapResource gv ver pref m d = Inr m"
  shows "mapResource gv ver pref m' r = Inr m'"
proof -
  have slashr: "CHR ''/'' \<notin> set (name r)"
    using slash same by simp
  have ownr: "m' (name r) = Some current"
    using own' same by simp
  note first = mapResource_own [where m = m and r = d, OF slash own]
  note second = mapResource_own [where m = m' and r = r, OF slashr ownr]
  show ?thesis
  proof (cases "extractVer (version current)")
    case None
    with noop show ?thesis by (simp add: first)
  next
    case (Some currVer)
    then have nonempty: "version current \<noteq> []"
      by (rule extractVer_nonempty)
    show ?thesis
    proof (cases "case pref of None \<Rightarrow> False | Some p \<Rightarrow> p \<noteq> [] \<and> version current = p")
      case True
      with Some nonempty show ?thesis by (simp add: second)
    next
      case notPreferred: False
      show ?thesis
      proof (cases "compareAPIVersions currVer ver")
        case (Inl e)
        with noop Some nonempty notPreferred show ?thesis by (simp add: first)
      next
        case (Inr c)
        have "\<not> c < 0"
        proof
          assume "c < 0"
          with noop Some nonempty notPreferred Inr
          have "m(name d \<mapsto> \<lparr>namespaced = namespaced d, version = gv\<rparr>) = m"
            by (simp add: first)
          then have "m (name d) = Some \<lparr>namespaced = namespaced d, version = gv\<rparr>"
            by (simp add: fun_upd_idem_iff)
          with own have "version current = gv" by auto
          with Some gv have "currVer = ver" by simp
          with Inr compare_extracted_same [OF gv] have "c = 0" by simp
          with \<open>c < 0\<close> show False by simp
        qed
        with Some nonempty notPreferred Inr show ?thesis by (simp add: second)
      qed
    qed
  qed
qed

text \<open>A descriptor that has been processed is left alone when it comes again.\<close>

lemma mapResource_again:
  assumes "mapResource gv ver pref m r = Inr m'" and "extractVer gv = Some ver"
  shows "mapResource gv ver pref m' r = Inr m'"
proof (cases "CHR ''/'' \<in> set (name r)")
  case True
  with assms show ?thesis by (simp add: mapResource_sub)
next
  case slash: False
  show ?thesis
  proof (cases "getProperty m (name r)")
    case (Builtin b)
    with slash assms show ?thesis by (simp add: mapResource_builtin)
  next
    case Missing
    with slash assms(1)
    have "m' = m(name r \<mapsto> \<lparr>namespaced = namespaced r, version = gv\<rparr>)"
      by (simp add: mapResource_missing)
    then have "m' (name r) = Some \<lparr>namespaced = namespaced r, version = gv\<rparr>"
      by simp
    with slash show ?thesis using assms(2) by (rule mapResource_fresh)
  next
    case (Own current)
    then have own: "m (name r) = Some current"
      by (simp add: getProperty_Own_iff)
    show ?thesis
    proof (cases "m' = m")
      case True
      with assms(1) show ?thesis by simp
    next
      case False
      with assms(1) have "m' = m(name r \<mapsto> \<lparr>namespaced = namespaced r, version = gv\<rparr>)"
        by (auto simp: mapResource_own [where m = m and r = r, OF slash own]
            split: if_splits option.splits sum.splits)
      then have "m' (name r) = Some \<lparr>namespaced = namespaced r, version = gv\<rparr>"
        by simp
      with slash show ?thesis using assms(2) by (rule mapResource_fresh)
    qed
  qed
qed

lemma mapResource_noop_own:
  assumes "mapResource gv ver pref m d = Inr m" and "CHR ''/'' \<notin> set (name d)"
  shows "\<exists>current. m (name d) = Some current"
proof (cases "getProperty m (name d)")
  case (Own current)
  then show ?thesis by (simp add: getProperty_Own_iff)
next
  case (Builtin b)
  with assms show ?thesis by (simp add: mapResource_builtin)
next
  case Missing
  with assms have "m(name d \<mapsto> \<lparr>namespaced = namespaced d, version = gv\<rparr>) = m"
    by (simp add: mapResource_missing)
  then show ?thesis by (simp add: fun_upd_idem_iff)
qed

lemma mapResource_noop_kept:
  assumes "mapResource gv ver pref m d = Inr m"
    and "mapResource gv ver pref m r = Inr m'"
    and "extractVer gv = Some ver"
  shows "mapResource gv ver pref m' d = Inr m'"
proof (cases "CHR ''/'' \<in> set (name d)")
  case True
  then show ?thesis by (simp add: mapResource_sub)
next
  case slash: False
  from mapResource_noop_own [OF assms(1) slash]
  obtain current where own: "m (name d) = Some current" ..
  have own': "m' (name d) = Some current"
  proof (cases "name r = name d")
    case True
    from slash True own own assms(3,1) have "mapResource gv ver pref m r = Inr m"
      by (rule mapResource_noop_transfer)
    with assms(2) own show ?thesis by simp
  next
    case False
    then show ?thesis
      using mapResource_other [OF assms(2)] own by simp
  qed
  from slash refl own own' assms(3,1) show ?thesis
    by (rule mapResource_noop_transfer)
qed

text \<open>
  A descriptor named as a property of \<^verbatim>\<open>Object.prototype\<close> ends the fold with a TypeError,
  after the map of the cluster version and the entries of the descriptors before it
  have been stored.
\<close>

lemma fold_constructor_raises:
  "mapGroupResources Map.empty ''1.8'' constructorResp None =
     ([''1.8'' \<mapsto> [''pods'' \<mapsto> \<lparr>namespaced = True, version = ''v1''\<rparr>]], Inl TypeError)"
  by (simp add: fold_defs constructorResp_def constructorDescriptor_def extractVer_v1
      extractVer_undefined)

section \<open>The loop and the fold\<close>

lemma forResources_frame:
  assumes "\<forall>r \<in> set rs. name r = k \<longrightarrow> CHR ''/'' \<in> set k"
  shows "fst (forResources gv ver pref m rs) k = m k"
  using assms
proof (induction rs arbitrary: m)
  case Nil
  then show ?case by simp
next
  case (Cons r rs)
  show ?case
  proof (cases "mapResource gv ver pref m r")
    case (Inl e)
    then show ?thesis by simp
  next
    case (Inr m')
    have "m' k = m k"
    proof (cases "name r = k")
      case True
      with Cons.prems have "CHR ''/'' \<in> set (name r)" by simp
      with Inr show ?thesis by (simp add: mapResource_sub)
    next
      case False
      with Inr show ?thesis by (rule mapResource_other)
    qed
    moreover have "fst (forResources gv ver pref m' rs) k = m' k"
      using Cons.prems by (intro Cons.IH) simp
    ultimately show ?thesis using Inr by simp
  qed
qed

lemma forResources_sticky:
  assumes "m k = Some info"
  shows "fst (forResources gv ver (Some (version info)) m rs) k = Some info"
  using assms
proof (induction rs arbitrary: m)
  case Nil
  then show ?case by simp
next
  case (Cons r rs)
  show ?case
  proof (cases "mapResource gv ver (Some (version info)) m r")
    case (Inl e)
    with Cons.prems show ?thesis by simp
  next
    case (Inr m')
    then have "m' k = Some info" using Cons.prems by (rule mapResource_sticky)
    then have "fst (forResources gv ver (Some (version info)) m' rs) k = Some info"
      by (rule Cons.IH)
    with Inr show ?thesis by simp
  qed
qed

lemma forResources_filter:
  "forResources gv ver pref m (filter (\<lambda>r. CHR ''/'' \<notin> set (name r)) rs) =
   forResources gv ver pref m rs"
proof (induction rs arbitrary: m)
  case Nil
  then show ?case by simp
next
  case (Cons r rs)
  then show ?case by (simp add: mapResource_sub split: sum.splits)
qed

lemma forResources_noops:
  assumes "\<forall>d \<in> set ds. mapResource gv ver pref m d = Inr m"
  shows "forResources gv ver pref m (ds @ rs) = forResources gv ver pref m rs"
  using assms by (induction ds) auto

text \<open>
  Running the loop again from the map it reached: the descriptors \<open>ds\<close> already seen
  change nothing, and the rest of the list behaves as it did the first time.
\<close>

lemma forResources_again_gen:
  assumes "extractVer gv = Some ver"
    and "\<forall>d \<in> set ds. mapResource gv ver pref m d = Inr m"
    and "forResources gv ver pref m rs = (m', e)"
  shows "forResources gv ver pref m' (ds @ rs) = (m', e)"
  using assms(2,3)
proof (induction rs arbitrary: m ds)
  case Nil
  then show ?case using forResources_noops [of ds gv ver pref m "[]"] by simp
next
  case (Cons r rs)
  show ?case
  proof (cases "mapResource gv ver pref m r")
    case (Inl err)
    with Cons.prems have "m' = m" "e = Some err" by auto
    then show ?thesis
      using forResources_noops [of ds gv ver pref m "r # rs"] Cons.prems(1) Inl by simp
  next
    case (Inr m1)
    have 1: "\<forall>d \<in> set (ds @ [r]). mapResource gv ver pref m1 d = Inr m1"
      using Cons.prems(1) Inr assms(1)
      by (auto intro: mapResource_noop_kept mapResource_again)
    have 2: "forResources gv ver pref m1 rs = (m', e)"
      using Cons.prems(2) Inr by simp
    from Cons.IH [OF 1 2] show ?thesis by simp
  qed
qed

lemma forResources_again:
  assumes "extractVer gv = Some ver" and "forResources gv ver pref m rs = (m', e)"
  shows "forResources gv ver pref m' rs = (m', e)"
  using forResources_again_gen [OF assms(1) _ assms(2), of "[]"] by simp

lemma entryAt_mapGroupResources:
  "entryAt (fst (mapGroupResources s cv resp pref)) cv k =
     (case extractVer (groupVersion resp) of
        None \<Rightarrow> entryAt s cv k
      | Some ver \<Rightarrow>
          fst (forResources (groupVersion resp) ver pref
                 (case s cv of None \<Rightarrow> Map.empty | Some m \<Rightarrow> m) (resources resp)) k)"
  by (simp add: mapGroupResources_def entryAt_def Let_def split: option.splits)

lemma entryAt_start:
  "(case s cv of None \<Rightarrow> Map.empty | Some m \<Rightarrow> m) k = entryAt s cv k"
  by (simp add: entryAt_def split: option.splits)

text \<open>Descriptors of sub-resources can be dropped from a response: the fold skips them.\<close>

lemma mapGroupResources_filter:
  "mapGroupResources s cv
     (resp\<lparr>resources := filter (\<lambda>r. CHR ''/'' \<notin> set (name r)) (resources resp)\<rparr>) pref =
   mapGroupResources s cv resp pref"
  by (simp add: mapGroupResources_def forResources_filter Let_def split: option.splits)

section \<open>Sub-resources\<close>

lemma core_folded:
  "fst (mapGroupResources Map.empty ''1.8'' coreResp None) =
     [''1.8'' \<mapsto> [''pods'' \<mapsto> \<lparr>namespaced = True, version = ''v1''\<rparr>]]"
  by (simp add: fold_defs extractVer_v1)

text \<open>
  C9. Descriptors with a \<^verbatim>\<open>/\<close> in their name write nothing: a fold does the same, to
  the cache and in its result, as the fold of the response without them. And a fold
  leaves the entry under a key \<open>k\<close> as it was when every descriptor of the response that
  is named \<open>k\<close> has a \<^verbatim>\<open>/\<close> in its name: no fold writes under a key with a \<^verbatim>\<open>/\<close>, such
  as \<^verbatim>\<open>pods/log\<close>, and the descriptor \<^verbatim>\<open>pods/log\<close> makes no fold write under \<^verbatim>\<open>log\<close>.
\<close>

theorem subresource_excluded:
  "mapGroupResources s cv resp pref =
     mapGroupResources s cv
       (resp\<lparr>resources := filter (\<lambda>r. CHR ''/'' \<notin> set (name r)) (resources resp)\<rparr>) pref \<and>
   ((\<forall>r \<in> set (resources resp). name r = k \<longrightarrow> CHR ''/'' \<in> set k) \<longrightarrow>
      entryAt (fst (mapGroupResources s cv resp pref)) cv k = entryAt s cv k)"
proof (intro conjI impI)
  show "mapGroupResources s cv resp pref =
     mapGroupResources s cv
       (resp\<lparr>resources := filter (\<lambda>r. CHR ''/'' \<notin> set (name r)) (resources resp)\<rparr>) pref"
    by (simp add: mapGroupResources_filter)
next
  assume "\<forall>r \<in> set (resources resp). name r = k \<longrightarrow> CHR ''/'' \<in> set k"
  from forResources_frame [OF this]
  show "entryAt (fst (mapGroupResources s cv resp pref)) cv k = entryAt s cv k"
    by (simp add: entryAt_mapGroupResources entryAt_start split: option.splits)
qed

text \<open>
  The core response with \<^verbatim>\<open>pods\<close> and \<^verbatim>\<open>pods/log\<close> is folded as the one with \<^verbatim>\<open>pods\<close>
  alone, and leaves the keys \<^verbatim>\<open>pods/log\<close> and \<^verbatim>\<open>log\<close> without an entry.
\<close>

theorem subresource_excluded_witness:
  "podsLog \<in> set (resources coreResp) \<and>
   mapGroupResources Map.empty ''1.8'' coreResp None =
     mapGroupResources Map.empty ''1.8'' corePodsResp None \<and>
   entryAt (fst (mapGroupResources Map.empty ''1.8'' coreResp None)) ''1.8'' ''pods/log'' = None \<and>
   entryAt (fst (mapGroupResources Map.empty ''1.8'' coreResp None)) ''1.8'' ''log'' = None \<and>
   entryAt (fst (mapGroupResources Map.empty ''1.8'' coreResp None)) ''1.8'' ''pods'' =
     Some \<lparr>namespaced = True, version = ''v1''\<rparr>"
proof -
  have 0: "coreResp\<lparr>resources := filter (\<lambda>r. CHR ''/'' \<notin> set (name r)) (resources coreResp)\<rparr> =
      corePodsResp"
    by (simp add: coreResp_def corePodsResp_def pods_def podsLog_def)
  have 1: "\<forall>r \<in> set (resources coreResp). name r = ''pods/log'' \<longrightarrow> CHR ''/'' \<in> set ''pods/log''"
    by simp
  have 2: "\<forall>r \<in> set (resources coreResp). name r = ''log'' \<longrightarrow> CHR ''/'' \<in> set ''log''"
    by (simp add: coreResp_def pods_def podsLog_def)
  have 3: "entryAt (fst (mapGroupResources Map.empty ''1.8'' coreResp None)) ''1.8'' ''pods'' =
     Some \<lparr>namespaced = True, version = ''v1''\<rparr>"
    by (simp add: core_folded entryAt_def)
  have 4: "entryAt Map.empty ''1.8'' k = None" for k
    by (simp add: entryAt_def)
  have 5: "podsLog \<in> set (resources coreResp)"
    by (simp add: coreResp_def)
  have 6: "mapGroupResources Map.empty ''1.8'' coreResp None =
      mapGroupResources Map.empty ''1.8'' corePodsResp None"
    using subresource_excluded [of Map.empty "''1.8''" coreResp None "''log''", THEN conjunct1]
    unfolding 0 .
  have 7: "entryAt (fst (mapGroupResources Map.empty ''1.8'' coreResp None)) ''1.8'' ''pods/log'' = None"
    using subresource_excluded [of Map.empty "''1.8''" coreResp None "''pods/log''",
        THEN conjunct2, THEN mp, OF 1]
    unfolding 4 .
  have 8: "entryAt (fst (mapGroupResources Map.empty ''1.8'' coreResp None)) ''1.8'' ''log'' = None"
    using subresource_excluded [of Map.empty "''1.8''" coreResp None "''log''",
        THEN conjunct2, THEN mp, OF 2]
    unfolding 4 .
  from 5 6 7 8 3 show ?thesis
    by (intro conjI)
qed

section \<open>The preferred group-version\<close>

lemma extensionsFolded_eq:
  "extensionsFolded =
     [''1.8'' \<mapsto> [''deployments'' \<mapsto> \<lparr>namespaced = True, version = ''extensions/v1beta1''\<rparr>]]"
  by (simp add: extensionsFolded_def fold_defs extractVer_extensions_v1beta1)

lemma appsFoldedAfter_eq:
  "appsFoldedAfter =
     [''1.8'' \<mapsto> [''deployments'' \<mapsto> \<lparr>namespaced = True, version = ''apps/v1beta2''\<rparr>]]"
  by (simp add: appsFoldedAfter_def extensionsFolded_eq fold_defs extractVer_extensions_v1beta1
      extractVer_apps_v1beta2 compare_v1beta1_v1beta2)

lemma appsV1beta1Folded_eq:
  "appsV1beta1Folded =
     [''1.8'' \<mapsto> [''deployments'' \<mapsto> \<lparr>namespaced = True, version = ''apps/v1beta1''\<rparr>]]"
  by (simp add: appsV1beta1Folded_def fold_defs extractVer_apps_v1beta1)

text \<open>
  C4, as the code has it. When the entry cached for a resource has the group-version
  that a fold is given as its preferred group-version, that fold leaves the entry as it
  was, whatever the response holds.
\<close>

theorem sticky_same_preferred:
  assumes "entryAt s cv k = Some info"
  shows "entryAt (fst (mapGroupResources s cv resp (Some (version info)))) cv k = Some info"
proof (cases "extractVer (groupVersion resp)")
  case None
  with assms show ?thesis by (simp add: entryAt_mapGroupResources)
next
  case (Some ver)
  have "(case s cv of None \<Rightarrow> Map.empty | Some m \<Rightarrow> m) k = Some info"
    using assms by (simp add: entryAt_start)
  then show ?thesis
    using Some by (simp add: entryAt_mapGroupResources forResources_sticky)
qed

text \<open>
  The entry \<^verbatim>\<open>apps/v1beta1\<close> stays when \<^verbatim>\<open>apps/v1beta2\<close>, which the comparator ranks above
  it, is folded with the preferred group-version \<^verbatim>\<open>apps/v1beta1\<close>.
\<close>

theorem sticky_same_preferred_witness:
  "entryAt appsV1beta1Folded ''1.8'' ''deployments'' =
     Some \<lparr>namespaced = True, version = ''apps/v1beta1''\<rparr> \<and>
   compareAPIVersions ''v1beta1'' ''v1beta2'' = Inr (- 1) \<and>
   entryAt (fst (mapGroupResources appsV1beta1Folded ''1.8'' appsV1beta2Resp (Some ''apps/v1beta1'')))
     ''1.8'' ''deployments'' = Some \<lparr>namespaced = True, version = ''apps/v1beta1''\<rparr>"
proof -
  have h: "entryAt appsV1beta1Folded ''1.8'' ''deployments'' =
     Some \<lparr>namespaced = True, version = ''apps/v1beta1''\<rparr>"
    by (simp add: appsV1beta1Folded_eq entryAt_def)
  from sticky_same_preferred [OF h, of appsV1beta2Resp] h show ?thesis
    by (simp add: compare_v1beta1_v1beta2)
qed

text \<open>
  C4, as it is stated, fails. The entry of \<^verbatim>\<open>deployments\<close> is \<^verbatim>\<open>extensions/v1beta1\<close>, the
  preferred group-version of the group \<^verbatim>\<open>extensions\<close>; folding \<^verbatim>\<open>apps/v1beta2\<close> with the
  preferred group-version of the group \<^verbatim>\<open>apps\<close> replaces it.
\<close>

theorem sticky_other_preferred_counterexample:
  "entryAt extensionsFolded ''1.8'' ''deployments'' =
     Some \<lparr>namespaced = True, version = ''extensions/v1beta1''\<rparr> \<and>
   entryAt appsFoldedAfter ''1.8'' ''deployments'' =
     Some \<lparr>namespaced = True, version = ''apps/v1beta2''\<rparr> \<and>
   entryAt appsFoldedAfter ''1.8'' ''deployments'' \<noteq>
     entryAt extensionsFolded ''1.8'' ''deployments''"
  by (simp add: extensionsFolded_eq appsFoldedAfter_eq entryAt_def)

section \<open>Folding a response twice\<close>

text \<open>
  C7. Folding a response into the cache that the same fold has produced, for the same
  cluster version and with the same preferred group-version, gives the same cache and
  the same result as the first fold.
\<close>

theorem fold_idempotent:
  "mapGroupResources (fst (mapGroupResources s cv resp pref)) cv resp pref =
     mapGroupResources s cv resp pref"
proof (cases "extractVer (groupVersion resp)")
  case None
  then show ?thesis by (simp add: mapGroupResources_def)
next
  case (Some ver)
  obtain m' e where run:
    "forResources (groupVersion resp) ver pref
       (case s cv of None \<Rightarrow> Map.empty | Some m \<Rightarrow> m) (resources resp) = (m', e)"
    by (cases "forResources (groupVersion resp) ver pref
       (case s cv of None \<Rightarrow> Map.empty | Some m \<Rightarrow> m) (resources resp)")
  have again: "forResources (groupVersion resp) ver pref m' (resources resp) = (m', e)"
    using Some run by (rule forResources_again)
  show ?thesis
    by (simp add: mapGroupResources_def Some run again Let_def split: option.splits)
qed

theorem fold_idempotent_witness:
  "fst (mapGroupResources (fst (mapGroupResources extensionsFolded ''1.8'' appsV1beta2Resp None))
          ''1.8'' appsV1beta2Resp None) = appsFoldedAfter"
proof -
  have "fst (mapGroupResources extensionsFolded ''1.8'' appsV1beta2Resp None) = appsFoldedAfter"
    by (simp add: appsFoldedAfter_eq extensionsFolded_eq fold_defs
        extractVer_extensions_v1beta1 extractVer_apps_v1beta2 compare_v1beta1_v1beta2)
  then show ?thesis
    using fold_idempotent [of extensionsFolded "''1.8''" appsV1beta2Resp None] by simp
qed

section \<open>The preferred-version scenario\<close>

lemma preferredScenario_eq:
  "preferredScenario =
     [''1.8'' \<mapsto> [''pods'' \<mapsto> \<lparr>namespaced = True, version = ''v1''\<rparr>,
                 ''deployments'' \<mapsto> \<lparr>namespaced = True, version = ''apps/v1beta1''\<rparr>]]"
  by (simp add: preferredScenario_def scenarioCalls_def fold_defs extractVer_v1
      extractVer_apps_v1 extractVer_apps_v1beta1 compare_v1beta1_v1)

lemma toLowerCase_deployment: "toLowerCase ''deployment'' = ''deployment''"
  by code_simp


lemma toLowerCase_widget: "toLowerCase ''widget'' = ''widget''"
  by code_simp

text \<open>
  C1. After the three folds of the scenario the lookup of \<^verbatim>\<open>deployment\<close> returns the entry
  with the group-version \<^verbatim>\<open>apps/v1beta1\<close>: the comparator answers 0 for \<^verbatim>\<open>v1beta1\<close> against
  \<^verbatim>\<open>v1\<close>, so the third fold does not replace the entry of the second.
\<close>

theorem preferred_scenario_lookup:
  "getGroupInfo preferredScenario (Some ''1.8'') (Some ''deployment'') =
     Info \<lparr>namespaced = True, version = ''apps/v1beta1''\<rparr>"
  by (simp add: preferredScenario_eq getGroupInfo_def getProperty_def
      objectPrototypeFunctions_def toLowerCase_deployment)

text \<open>
  With \<^verbatim>\<open>apps/v1\<close> folded before \<^verbatim>\<open>apps/v1beta1\<close> the same lookup returns the preferred
  \<^verbatim>\<open>apps/v1\<close>: the result depends on the order of the folds.
\<close>

lemma preferred_first_lookup:
  "getGroupInfo (foldAll Map.empty swappedCalls) (Some ''1.8'') (Some ''deployment'') =
     Info \<lparr>namespaced = True, version = ''apps/v1''\<rparr>"
proof -
  have "foldAll Map.empty swappedCalls =
     [''1.8'' \<mapsto> [''pods'' \<mapsto> \<lparr>namespaced = True, version = ''v1''\<rparr>,
                 ''deployments'' \<mapsto> \<lparr>namespaced = True, version = ''apps/v1''\<rparr>]]"
    by (simp add: swappedCalls_def fold_defs extractVer_v1 extractVer_apps_v1
        extractVer_apps_v1beta1)
  then show ?thesis
    by (simp add: getGroupInfo_def getProperty_def objectPrototypeFunctions_def
        toLowerCase_deployment)
qed

section \<open>Lookup in a cache built by folds\<close>



text \<open>A resource type without capital letters is looked up as it is.\<close>

lemma toLowerCase_lower: "list_all (\<lambda>c. \<not> isCapital c) rt \<Longrightarrow> toLowerCase rt = rt"
  by (induction rt) (auto simp: toLowerCase_def)



lemma toLowerCase_constructor: "toLowerCase ''constructor'' = ''constructor''"
  by code_simp





lemma lookup_empty_arguments:
  "getGroupInfo s (Some []) resourceType = Undefined"
  "getGroupInfo s clusterVersion (Some []) = Undefined"
  by (simp_all add: getGroupInfo_def split: option.splits)




text \<open>
  Names of properties of \<^verbatim>\<open>Object.prototype\<close>, which the statement above leaves out: the
  lookup of \<^verbatim>\<open>constructor\<close> under a folded cluster version returns the function found
  there, and the lookup under the cluster version \<^verbatim>\<open>__proto__\<close>, which no fold has
  touched, returns \<^verbatim>\<open>Object.prototype\<close>.
\<close>

lemma lookup_constructor:
  "getGroupInfo preferredScenario (Some ''1.8'') (Some ''constructor'') =
     BuiltinValue (BuiltinFunction ''constructor'')"
  by (simp add: preferredScenario_eq getGroupInfo_def getProperty_def
      objectPrototypeFunctions_def toLowerCase_constructor)

lemma lookup_under_proto:
  "getGroupInfo Map.empty (Some ''__proto__'') (Some ''widget'') = BuiltinValue ObjectPrototype"
  by (simp add: getGroupInfo_def getProperty_def prototypeProperty_def
      objectPrototypeFunctions_def toLowerCase_widget)

section \<open>Failures while the map is built\<close>

lemma prettify_v183: "prettifyVersion ''v1.8.3'' 2 = ''1.8''"
  by code_simp

lemma flaky_build:
  "buildAPIMap Map.empty (Some \<lparr>server = ''https://k8s''\<rparr>) flakyCluster =
     ([''1.8'' \<mapsto> [''pods'' \<mapsto> \<lparr>namespaced = True, version = ''v1''\<rparr>,
                  ''deployments'' \<mapsto> \<lparr>namespaced = True, version = ''apps/v1beta1''\<rparr>]],
      RejectedAll [\<lparr>response = None, message = ''Service Unavailable'', statusCode = Some 503\<rparr>])"
  by (simp add: buildAPIMap_def flakyCluster_def flakyGet_def prettify_v183
      removeTrailingSlash_def axiosHandler_def unavailable_def fold_defs
      extractVer_v1 extractVer_apps_v1beta1)

text \<open>
  Errors are only added to \<^verbatim>\<open>errs\<close>, and a request that fails adds one. So whenever a
  request for a resource list fails, the promise is rejected with \<^verbatim>\<open>errs\<close>.
\<close>

lemma groupReqs_errs_kept:
  "errs \<noteq> [] \<Longrightarrow> snd (groupReqs net cv s errs reqs) \<noteq> []"
proof (induction reqs arbitrary: s errs)
  case Nil
  then show ?case by simp
next
  case (Cons req reqs)
  obtain url p where "req = (url, p)" by (cases req)
  with Cons show ?case
    by (auto split: sum.splits data.splits prod.splits)
qed

lemma groupReqs_failed:
  assumes "(url, p) \<in> set reqs" and "axiosGet net url = Inl err"
  shows "snd (groupReqs net cv s errs reqs) \<noteq> []"
  using assms(1)
proof (induction reqs arbitrary: s errs)
  case Nil
  then show ?case by simp
next
  case (Cons req reqs)
  obtain url' p' where req: "req = (url', p')" by (cases req)
  show ?case
  proof (cases "req = (url, p)")
    case True
    with assms(2) show ?thesis by (simp add: groupReqs_errs_kept)
  next
    case False
    with Cons.prems have "(url, p) \<in> set reqs" by simp
    then show ?thesis
      using Cons.IH by (auto simp: req split: sum.splits data.splits prod.splits)
  qed
qed

lemma build_failure_rejects:
  assumes "getVersion net = Inr gitVersion"
    and "axiosGet net (removeTrailingSlash (server config) @ ''/apis'') = Inr (GroupList apiGroups)"
    and "(url, p) \<in> set (arrival net
           ((removeTrailingSlash (server config) @ ''/api/v1'', None) #
            concat (map (\<lambda>group.
              map (\<lambda>groupVersion.
                     (removeTrailingSlash (server config) @ ''/apis/'' @ groupVersion,
                      Some (preferredVersion group)))
                  (versions group)) apiGroups)))"
    and "axiosGet net url = Inl err"
  shows "\<exists>errs. snd (buildAPIMap s (Some config) net) = RejectedAll errs \<and> errs \<noteq> []"
  using groupReqs_failed [OF assms(3,4)] assms(1,2)
  by (simp add: buildAPIMap_def Let_def)

text \<open>
  C5. One request of the build fails and the others are folded: the cache holds the
  entries of the core group and of \<^verbatim>\<open>apps/v1beta1\<close>, and the promise is rejected with the
  array of the collected errors alone. The map is not part of what the caller receives.
\<close>

theorem build_rejects_with_errors_only:
  "snd (buildAPIMap Map.empty (Some \<lparr>server = ''https://k8s''\<rparr>) flakyCluster) =
     RejectedAll [\<lparr>response = None, message = ''Service Unavailable'', statusCode = Some 503\<rparr>] \<and>
   entryAt (fst (buildAPIMap Map.empty (Some \<lparr>server = ''https://k8s''\<rparr>) flakyCluster))
     ''1.8'' ''deployments'' = Some \<lparr>namespaced = True, version = ''apps/v1beta1''\<rparr> \<and>
   entryAt (fst (buildAPIMap Map.empty (Some \<lparr>server = ''https://k8s''\<rparr>) flakyCluster))
     ''1.8'' ''pods'' = Some \<lparr>namespaced = True, version = ''v1''\<rparr>"
  by (simp add: flaky_build entryAt_def)

section \<open>Removing a trailing slash\<close>

text \<open>
  C10. \<^verbatim>\<open>removeTrailingSlash\<close> returns its argument as it is, also when the argument ends
  in a slash: the shortened string is computed and dropped.
\<close>

theorem removeTrailingSlash_unchanged: "removeTrailingSlash url = url"
  by (simp add: removeTrailingSlash_def Let_def)

theorem removeTrailingSlash_unchanged_witness:
  "removeTrailingSlash ''https://k8s/'' = ''https://k8s/'' \<and> last ''https://k8s/'' = CHR ''/''"
  using removeTrailingSlash_unchanged [of "''https://k8s/''"] by simp

end
